theory Spec2Isabelle
  imports Main "HOL-Library.Sublist"
begin

section \<open>Go strings and the functions of package strings that the program calls\<close>

text \<open>
  A Go string is modelled as the list of its characters, each \<^typ>\<open>char\<close> standing for one
  code point below 256. On that range \<open>unicode.IsSpace\<close> is the set below.
\<close>

definition IsSpace :: "char \<Rightarrow> bool" where
  "IsSpace c \<longleftrightarrow> c \<in> {CHR 0x09, CHR 0x0A, CHR 0x0B, CHR 0x0C, CHR 0x0D, CHR 0x20, CHR 0x85, CHR 0xA0}"

text \<open>\<open>strings.TrimSpace\<close>: leading and trailing white space removed.\<close>

definition TrimSpace :: "string \<Rightarrow> string" where
  "TrimSpace s = rev (dropWhile IsSpace (rev (dropWhile IsSpace s)))"

text \<open>
  \<open>strings.Fields\<close>: the maximal runs of non-space characters, in order. The second
  argument of the scan is the field read so far.
\<close>

fun fields_scan :: "string \<Rightarrow> string \<Rightarrow> string list" where
  "fields_scan [] w = (if w = [] then [] else [w])"
| "fields_scan (c # cs) w =
     (if IsSpace c then (if w = [] then fields_scan cs [] else w # fields_scan cs [])
      else fields_scan cs (w @ [c]))"

definition Fields :: "string \<Rightarrow> string list" where
  "Fields s = fields_scan s []"

text \<open>
  \<open>strings.Split(s, sep)\<close> for a separator of one character: the pieces between the
  occurrences of the separator, so one piece more than there are separators.
\<close>

fun Split :: "string \<Rightarrow> char \<Rightarrow> string list" where
  "Split [] sep = [[]]"
| "Split (c # cs) sep =
     (if c = sep then [] # Split cs sep
      else (let r = Split cs sep in (c # hd r) # tl r))"

section \<open>Errors and panics\<close>

datatype error = Error string

datatype panic = Panic string

section \<open>history.go: the command history\<close>

record HistoryFile =
  filePath :: string
  maxSize :: int
  history :: "string list"

text \<open>
  The files the history is written to. \<open>os.Create\<close> may fail, and so may the buffered
  write after it; then the file holds the part written before the failure.
\<close>

datatype io = IoOk | CreateFails | WriteFails nat

record disk =
  files :: "string \<rightharpoonup> string"
  io_of :: "string \<Rightarrow> io"

definition file_lines :: "string list \<Rightarrow> string" where
  "file_lines ls = concat (map (\<lambda>l. l @ [CHR 0x0A]) ls)"

definition Save :: "HistoryFile \<Rightarrow> disk \<Rightarrow> error option \<times> disk" where
  "Save h d =
     (case io_of d (filePath h) of
        CreateFails \<Rightarrow> (Some (Error ''create''), d)
      | WriteFails n \<Rightarrow>
          (Some (Error ''write''),
           d\<lparr>files := (files d)(filePath h \<mapsto> take n (file_lines (history h)))\<rparr>)
      | IoOk \<Rightarrow>
          (None, d\<lparr>files := (files d)(filePath h \<mapsto> file_lines (history h))\<rparr>))"

text \<open>
  \<open>Append\<close>. The slice expression \<open>h.history[len(h.history)-h.maxSize:]\<close> panics when
  its lower bound exceeds the length, which is the case for a negative \<open>maxSize\<close>.
\<close>

definition Append :: "string \<Rightarrow> HistoryFile \<Rightarrow> disk \<Rightarrow> panic + (error option \<times> HistoryFile \<times> disk)" where
  "Append cmd0 h d =
     (let cmd = TrimSpace cmd0 in
      if cmd = [] then Inr (None, h, d)
      else if length (history h) > 0 \<and> last (history h) = cmd then Inr (None, h, d)
      else
        (let h1 = h\<lparr>history := history h @ [cmd]\<rparr> in
         if int (length (history h1)) > maxSize h1 then
           (if maxSize h1 < 0 then Inl (Panic ''slice bounds out of range'')
            else
              (let h2 = h1\<lparr>history := drop (length (history h1) - nat (maxSize h1)) (history h1)\<rparr>
               in case Save h2 d of (e, d') \<Rightarrow> Inr (e, h2, d')))
         else (case Save h1 d of (e, d') \<Rightarrow> Inr (e, h1, d'))))"

text \<open>
  A sequence of \<open>Append\<close> calls, as the console's executor makes them: an error that
  \<open>Append\<close> returns is logged and the next command is appended all the same.
\<close>

fun AppendAll :: "string list \<Rightarrow> HistoryFile \<Rightarrow> disk \<Rightarrow> panic + (HistoryFile \<times> disk)" where
  "AppendAll [] h d = Inr (h, d)"
| "AppendAll (c # cs) h d =
     (case Append c h d of
        Inl p \<Rightarrow> Inl p
      | Inr (e, h', d') \<Rightarrow> AppendAll cs h' d')"

definition GetHistory :: "HistoryFile \<Rightarrow> string list" where
  "GetHistory h = history h"


text \<open>What the store holds after a run of commands is stated with these.\<close>

definition lastn :: "nat \<Rightarrow> 'a list \<Rightarrow> 'a list" where
  "lastn n xs = drop (length xs - n) xs"

definition accepted :: "string list \<Rightarrow> string list" where
  "accepted cmds = filter (\<lambda>s. s \<noteq> []) (map TrimSpace cmds)"

definition hist_inv :: "HistoryFile \<Rightarrow> bool" where
  "hist_inv h \<longleftrightarrow>
     0 \<le> maxSize h \<and> distinct_adj (history h) \<and> int (length (history h)) \<le> maxSize h"

definition push :: "nat \<Rightarrow> string \<Rightarrow> string list \<Rightarrow> string list" where
  "push n c xs =
     (let cmd = TrimSpace c in
      if cmd = [] \<or> (xs \<noteq> [] \<and> last xs = cmd) then xs else lastn n (xs @ [cmd]))"

section \<open>Formatting\<close>

text \<open>The verb \<open>%d\<close> of \<open>fmt.Sprintf\<close> on a non-negative integer.\<close>

definition digit :: "nat \<Rightarrow> char" where
  "digit n = ''0123456789'' ! n"

function decimal :: "nat \<Rightarrow> string" where
  "decimal n = (if n < 10 then [digit n] else decimal (n div 10) @ [digit (n mod 10)])"
  by pat_completeness auto
termination
  by (relation "measure id") auto

declare decimal.simps [simp del]

section \<open>The proxying engine and the configuration, as the console sees them\<close>

record Session =
  sid :: nat
  DisplayName :: string

record Spectrum =
  GetSessions :: "Session list"
  OptsAddr :: string

record ServerConfig =
  Name :: string
  BindAddr :: string
  DefaultServer :: string
  ShutdownMessage :: string

text \<open>
  The global \<open>serverMap\<close>, name to address. A Go map is ranged over in an order the
  language leaves open; the list gives the keys in the order of one such range, and no
  key occurs twice.
\<close>

type_synonym server_map = "(string \<times> string) list"

section \<open>The completer (go-prompt's Document and FilterHasPrefix as the library has them)\<close>

record Suggest =
  Text :: string
  Description :: string

text \<open>
  A document is the text typed so far and the cursor, counted in characters.
  The word before the cursor starts after the last space or line break before it.
\<close>

record Document =
  doc_text :: string
  cursorPosition :: nat

definition TextBeforeCursor :: "Document \<Rightarrow> string" where
  "TextBeforeCursor d = take (cursorPosition d) (doc_text d)"

definition CurrentRuneIndex :: "Document \<Rightarrow> int" where
  "CurrentRuneIndex d = int (cursorPosition d)"

definition word_sep :: "char \<Rightarrow> bool" where
  "word_sep c \<longleftrightarrow> c = CHR '' '' \<or> c = CHR 0x0A"

definition GetWordBeforeCursor :: "Document \<Rightarrow> string" where
  "GetWordBeforeCursor d = rev (takeWhile (\<lambda>c. \<not> word_sep c) (rev (TextBeforeCursor d)))"

definition RuneCountInString :: "string \<Rightarrow> int" where
  "RuneCountInString s = int (length s)"

text \<open>
  \<open>prompt.FilterHasPrefix\<close>. With \<open>ignoreCase\<close> both sides go through
  \<open>strings.ToUpper\<close>, which is the parameter \<open>up\<close>; an empty \<open>sub\<close> keeps everything.
\<close>

definition FilterHasPrefix :: "(string \<Rightarrow> string) \<Rightarrow> Suggest list \<Rightarrow> string \<Rightarrow> bool \<Rightarrow> Suggest list" where
  "FilterHasPrefix up suggestions sub ignoreCase =
     (if sub = [] then suggestions
      else
        (let sub' = (if ignoreCase then up sub else sub)
         in filter (\<lambda>s. prefix sub' (if ignoreCase then up (Text s) else Text s)) suggestions))"

text \<open>\<open>strings.ToUpper\<close> on ASCII text.\<close>

definition upper_char :: "char \<Rightarrow> char" where
  "upper_char c =
     (case map_of (zip ''abcdefghijklmnopqrstuvwxyz'' ''ABCDEFGHIJKLMNOPQRSTUVWXYZ'') c of
        Some u \<Rightarrow> u
      | None \<Rightarrow> c)"

definition ToUpper :: "string \<Rightarrow> string" where
  "ToUpper s = map upper_char s"

definition commands :: "Suggest list" where
  "commands =
     [\<lparr>Text = ''players'', Description = ''List all connected players''\<rparr>,
      \<lparr>Text = ''transfer'', Description = ''Transfer a player to another server''\<rparr>,
      \<lparr>Text = ''info'', Description = ''Show server information''\<rparr>,
      \<lparr>Text = ''stop'', Description = ''Stop the server''\<rparr>,
      \<lparr>Text = ''exit'', Description = ''Stop the server''\<rparr>]"

definition completeCommand :: "(string \<Rightarrow> string) \<Rightarrow> string \<Rightarrow> Suggest list" where
  "completeCommand up input = FilterHasPrefix up commands input True"

definition completePlayerNames :: "(string \<Rightarrow> string) \<Rightarrow> Spectrum \<Rightarrow> string \<Rightarrow> Suggest list" where
  "completePlayerNames up p input =
     FilterHasPrefix up
       (map (\<lambda>s. \<lparr>Text = DisplayName s, Description = ''Connected player''\<rparr>) (GetSessions p))
       input True"

definition completeServerNames :: "(string \<Rightarrow> string) \<Rightarrow> server_map \<Rightarrow> string \<Rightarrow> Suggest list" where
  "completeServerNames up serverMap input =
     FilterHasPrefix up
       (map (\<lambda>(serverName, addr). \<lparr>Text = serverName, Description = ''Available server''\<rparr>) serverMap)
       input True"

definition Complete ::
  "(string \<Rightarrow> string) \<Rightarrow> Spectrum \<Rightarrow> server_map \<Rightarrow> Document \<Rightarrow> Suggest list \<times> int \<times> int" where
  "Complete up p serverMap d =
     (let endIndex = CurrentRuneIndex d;
          w = GetWordBeforeCursor d
      in if w = [] then ([], 0, 0)
         else
           (let startIndex = endIndex - RuneCountInString w;
                args = Split (TextBeforeCursor d) (CHR '' '')
            in if length args \<le> 1 then (completeCommand up (hd args), startIndex, endIndex)
               else if hd args = ''transfer'' then
                 (if length args = 2 then (completePlayerNames up p (args ! 1), startIndex, endIndex)
                  else if length args = 3 then (completeServerNames up serverMap (args ! 2), startIndex, endIndex)
                  else ([], 0, 0))
               else if hd args = ''players'' then ([], 0, 0)
               else if hd args = ''info'' then ([], 0, 0)
               else ([], 0, 0)))"


section \<open>What the program does to the outside, as a trace\<close>

datatype level = LDebug | LInfo | LError

text \<open>
  A log line is its level, its message and its attributes (attributes that are floating
  point numbers are left out). The other constructors are the calls the program makes on
  its collaborators and on its own maps, in the order it makes them.
\<close>

datatype effect =
    Log level string "(string \<times> string) list"
  | ServerClose
  | ProxyClose
  | TransferTimeout Session string nat
  | Exit int
  | PacksLookup string
  | CacheLookup string
  | PackReadAt string
  | CacheStore string
  | Listen string
  | CloseReady
  | Serve nat

fun err_text :: "error \<Rightarrow> string" where
  "err_text (Error m) = m"

section \<open>Resource packs and the resource pack server\<close>

text \<open>
  A pack of the gophertunnel library: its identifier, name and length, and its byte
  source, \<open>ReadAt pack n off\<close> being the outcome of reading \<open>n\<close> bytes at offset \<open>off\<close>.
\<close>

record Pack =
  UUID :: string
  PackName :: string
  Len :: nat
  ReadAt :: "nat \<Rightarrow> nat \<Rightarrow> error + string"
  ContentKey :: string
  DownloadURL :: string

text \<open>
  \<open>content := make([]byte, pack.Len()); _, err := pack.ReadAt(content, 0)\<close>:
  a buffer of \<open>Len\<close> zero bytes, overwritten from its start by what was read.
\<close>

definition read_content :: "Pack \<Rightarrow> error + string" where
  "read_content pack =
     (case ReadAt pack (Len pack) 0 of
        Inl err \<Rightarrow> Inl err
      | Inr bytes \<Rightarrow> Inr (take (Len pack) (bytes @ replicate (Len pack) (CHR 0x00))))"

datatype chan = Open | Closed

record ResourcePackServer =
  packs :: "string \<rightharpoonup> Pack"
  contentCache :: "string \<rightharpoonup> string"
  basePath :: string
  Addr :: string
  ready :: chan

definition path_Join :: "string \<Rightarrow> string \<Rightarrow> string" where
  \<comment> \<open>\<open>path.Join\<close> of a clean absolute path and a plain name\<close>
  "path_Join a b = (if a = ''/'' then a @ b else a @ ''/'' @ b)"

text \<open>The loop of \<open>NewResourcePackServer\<close> over the packs: pack map, cache and log.\<close>

fun preload ::
  "Pack list \<Rightarrow> (string \<rightharpoonup> Pack) \<times> (string \<rightharpoonup> string) \<times> effect list
     \<Rightarrow> (string \<rightharpoonup> Pack) \<times> (string \<rightharpoonup> string) \<times> effect list" where
  "preload [] acc = acc"
| "preload (pack # rest) (packMap, cache, log) =
     (let uuid = UUID pack;
          packMap' = packMap(uuid \<mapsto> pack)
      in case read_content pack of
           Inl err \<Rightarrow>
             preload rest
               (packMap', cache,
                log @ [Log LError ''Failed to cache resource pack''
                         [(''uuid'', uuid), (''error'', err_text err)]])
         | Inr content \<Rightarrow>
             preload rest
               (packMap', cache(uuid \<mapsto> content),
                log @ [Log LDebug ''Cached resource pack''
                         [(''uuid'', uuid), (''size'', decimal (length content))]]))"

definition NewResourcePackServer ::
  "(error + string) \<Rightarrow> Pack list \<Rightarrow> nat \<Rightarrow> (error + ResourcePackServer) \<times> effect list" where
  "NewResourcePackServer getwd ps port =
     (case getwd of
        Inl err \<Rightarrow> (Inl err, [])
      | Inr wd \<Rightarrow>
          (case preload ps (Map.empty, Map.empty, []) of
             (packMap, cache, log) \<Rightarrow>
               (Inr \<lparr>packs = packMap, contentCache = cache,
                     basePath = path_Join wd ''resource_packs'',
                     Addr = '':'' @ decimal port, ready = Open\<rparr>, log)))"

definition UpdatePacks :: "Pack list \<Rightarrow> ResourcePackServer \<Rightarrow> ResourcePackServer" where
  "UpdatePacks ps s = s\<lparr>packs := fold (\<lambda>pack m. m(UUID pack \<mapsto> pack)) ps Map.empty\<rparr>"

subsection \<open>handleRequest\<close>

text \<open>
  The response as the handler gives it to the \<open>http.ResponseWriter\<close>: the status
  (\<open>w.Write\<close> implies 200 when none was set), the headers set, and the bytes of the body
  that the writer took.
\<close>

record Response =
  status :: nat
  headers :: "(string \<times> string) list"
  body :: string

definition http_Error :: "string \<Rightarrow> nat \<Rightarrow> Response" where
  "http_Error msg code =
     \<lparr>status = code,
      headers = [(''Content-Type'', ''text/plain; charset=utf-8''),
                 (''X-Content-Type-Options'', ''nosniff'')],
      body = msg @ [CHR 0x0A]\<rparr>"

definition http_NotFound :: Response where
  "http_NotFound = http_Error ''404 page not found'' 404"

definition TrimPrefix :: "string \<Rightarrow> string \<Rightarrow> string" where
  "TrimPrefix s p = (if prefix p s then drop (length p) s else s)"

fun Contains :: "string \<Rightarrow> string \<Rightarrow> bool" where
  "Contains [] sub = (sub = [])"
| "Contains (c # cs) sub = (prefix sub (c # cs) \<or> Contains cs sub)"

text \<open>
  The end of \<open>handleRequest\<close>: the three headers and \<open>w.Write(content)\<close>. \<open>wr\<close> is
  what \<open>w.Write\<close> returns when it fails: the number of bytes written before the failure
  and the error. Then only those bytes of the content are in the response.
\<close>

definition write_pack ::
  "(nat \<times> error) option \<Rightarrow> string \<Rightarrow> string \<Rightarrow> Response \<times> effect list" where
  "write_pack wr path content =
     (\<lparr>status = 200,
       headers = [(''Content-Disposition'', ''attachment; filename='' @ path @ ''.mcpack''),
                  (''Content-Type'', ''application/zip''),
                  (''Content-Length'', decimal (length content))],
       body = (case wr of Some (n, err) \<Rightarrow> take n content | None \<Rightarrow> content)\<rparr>,
      (case wr of
         Some (n, err) \<Rightarrow>
           [Log LError ''Failed to write resource pack to response''
              [(''uuid'', path), (''error'', err_text err)]]
       | None \<Rightarrow>
           [Log LDebug ''Served resource pack''
              [(''uuid'', path), (''size'', decimal (length content))]]))"

definition handleRequest ::
  "(nat \<times> error) option \<Rightarrow> ResourcePackServer \<Rightarrow> string
     \<Rightarrow> Response \<times> ResourcePackServer \<times> effect list" where
  "handleRequest wr s urlPath =
     (let path = TrimPrefix urlPath ''/'';
          t0 = [Log LDebug ''Received request'' [(''path'', path)]]
      in if path = [] then (http_NotFound, s, t0)
         else if Contains path ''..'' \<or> Contains path ''/'' then (http_NotFound, s, t0)
         else
           (case packs s path of
              None \<Rightarrow>
                (http_NotFound, s,
                 t0 @ [PacksLookup path, Log LDebug ''Resource pack not found'' [(''uuid'', path)]])
            | Some pack \<Rightarrow>
                (case contentCache s path of
                   Some content \<Rightarrow>
                     (case write_pack wr path content of
                        (resp, t1) \<Rightarrow> (resp, s, t0 @ [PacksLookup path, CacheLookup path] @ t1))
                 | None \<Rightarrow>
                     (let t2 = t0 @ [PacksLookup path, CacheLookup path,
                                     Log LDebug ''Resource pack not cached, reading from pack''
                                       [(''uuid'', path)],
                                     PackReadAt path]
                      in case read_content pack of
                           Inl err \<Rightarrow>
                             (http_Error ''Internal server error'' 500, s,
                              t2 @ [Log LError ''Failed to read resource pack''
                                      [(''uuid'', path), (''error'', err_text err)]])
                         | Inr content \<Rightarrow>
                             (case write_pack wr path content of
                                (resp, t1) \<Rightarrow>
                                  (resp, s\<lparr>contentCache := (contentCache s)(path \<mapsto> content)\<rparr>,
                                   t2 @ [CacheStore path] @ t1))))))"

subsection \<open>Start and the readiness gate\<close>

text \<open>
  The server together with the goroutines that called \<open>WaitForReady\<close>: those still
  blocked on the channel and those that have returned. Receiving from an open channel
  blocks; closing it releases every blocked receiver; receiving from a closed channel
  returns at once; closing a closed channel panics.
\<close>

record runtime =
  server :: ResourcePackServer
  blocked :: "nat list"
  returned :: "nat list"
  trace :: "effect list"

definition WaitForReady :: "nat \<Rightarrow> runtime \<Rightarrow> runtime" where
  "WaitForReady g rt =
     (if ready (server rt) = Closed then rt\<lparr>returned := returned rt @ [g]\<rparr>
      else rt\<lparr>blocked := blocked rt @ [g]\<rparr>)"

definition close_ready :: "runtime \<Rightarrow> panic + runtime" where
  "close_ready rt =
     (if ready (server rt) = Closed then Inl (Panic ''close of closed channel'')
      else Inr (rt\<lparr>server := (server rt)\<lparr>ready := Closed\<rparr>,
                   returned := returned rt @ blocked rt,
                   blocked := [],
                   trace := trace rt @ [CloseReady]\<rparr>))"

text \<open>
  \<open>Start\<close>, up to the call of \<open>s.server.Serve\<close>, which returns only when the server is
  closed. \<open>lr\<close> is the outcome of \<open>net.Listen\<close>.
\<close>

datatype start_outcome = BindFailed error | StartPanic panic | Serving nat

definition Start :: "(error + nat) \<Rightarrow> runtime \<Rightarrow> start_outcome \<times> runtime" where
  "Start lr rt =
     (let rt1 = rt\<lparr>trace := trace rt @
                   [Log LInfo ''Starting resource pack HTTP server''
                      [(''address'', Addr (server rt))],
                    Listen (Addr (server rt))]\<rparr>
      in case lr of
           Inl err \<Rightarrow> (BindFailed err, rt1)
         | Inr listener \<Rightarrow>
             (case close_ready rt1 of
                Inl p \<Rightarrow> (StartPanic p, rt1)
              | Inr rt2 \<Rightarrow> (Serving listener, rt2\<lparr>trace := trace rt2 @ [Serve listener]\<rparr>)))"

text \<open>Calls of the two operations, in the order in which they take effect.\<close>

datatype op = OpWait nat | OpStart "error + nat"

fun step :: "runtime \<Rightarrow> op \<Rightarrow> runtime" where
  "step rt (OpWait g) = WaitForReady g rt"
| "step rt (OpStart lr) = snd (Start lr rt)"

definition run :: "op list \<Rightarrow> runtime \<Rightarrow> runtime" where
  "run ops rt = foldl step rt ops"

definition fresh :: "ResourcePackServer \<Rightarrow> runtime" where
  "fresh s = \<lparr>server = s, blocked = [], returned = [], trace = []\<rparr>"

fun binds :: "op \<Rightarrow> bool" where
  "binds (OpStart (Inr listener)) = True"
| "binds other = False"

subsection \<open>ModifyResourcePackForCDN\<close>

text \<open>
  \<open>resource.MustReadURL\<close> of the gophertunnel library downloads the pack found at the
  URL and panics when that fails. The download, \<open>ReadURL\<close>, is a parameter.
\<close>

definition MustReadURL :: "(string \<Rightarrow> error + Pack) \<Rightarrow> string \<Rightarrow> panic + Pack" where
  "MustReadURL ReadURL url =
     (case ReadURL url of Inl err \<Rightarrow> Inl (Panic (err_text err)) | Inr pack \<Rightarrow> Inr pack)"

definition cdn_url :: "string \<Rightarrow> Pack \<Rightarrow> string" where
  "cdn_url baseURL pack = baseURL @ ''/'' @ UUID pack"

fun ModifyResourcePackForCDN ::
  "(string \<Rightarrow> error + Pack) \<Rightarrow> Pack list \<Rightarrow> string \<Rightarrow> panic + Pack list" where
  "ModifyResourcePackForCDN ReadURL [] baseURL = Inr []"
| "ModifyResourcePackForCDN ReadURL (pack # rest) baseURL =
     (case MustReadURL ReadURL (cdn_url baseURL pack) of
        Inl p \<Rightarrow> Inl p
      | Inr modifiedPack \<Rightarrow>
          (case ModifyResourcePackForCDN ReadURL rest baseURL of
             Inl p \<Rightarrow> Inl p
           | Inr modifiedPacks \<Rightarrow> Inr (modifiedPack # modifiedPacks)))"

section \<open>main.go: loading the packs\<close>

datatype dir_stat = StatOk | StatNotExist | StatOther

record os_env =
  Getwd :: "error + string"
  Stat :: dir_stat
  Mkdir :: "error option"
  ReadDir :: "error + string list"
  ReadPath :: "string \<Rightarrow> error + Pack"

definition WithContentKey :: "string \<Rightarrow> Pack \<Rightarrow> Pack" where
  "WithContentKey key pack = pack\<lparr>ContentKey := key\<rparr>"

text \<open>The loop of \<open>parse\<close> over the directory entries.\<close>

fun parse_entries ::
  "(string \<rightharpoonup> string) \<Rightarrow> os_env \<Rightarrow> string \<Rightarrow> string list \<Rightarrow> Pack list \<Rightarrow> effect list
     \<Rightarrow> (error + Pack list) \<times> effect list" where
  "parse_entries keys env dir [] ps log = (Inr ps, log)"
| "parse_entries keys env dir (entry # rest) ps log =
     (case ReadPath env (path_Join dir entry) of
        Inl err \<Rightarrow> (Inl err, log)
      | Inr pack0 \<Rightarrow>
          (let pack = (case keys (UUID pack0) of
                         Some key \<Rightarrow> WithContentKey key pack0
                       | None \<Rightarrow> pack0)
           in parse_entries keys env dir rest (ps @ [pack])
                (log @ [Log LDebug ''Loaded pack''
                          [(''name'', PackName pack), (''uuid'', UUID pack)]])))"

definition parse :: "(string \<rightharpoonup> string) \<Rightarrow> os_env \<Rightarrow> (error + Pack list) \<times> effect list" where
  "parse keys env =
     (case Getwd env of
        Inl err \<Rightarrow> (Inl err, [])
      | Inr wd \<Rightarrow>
          (let dir = path_Join wd ''resource_packs'' in
           case (if Stat env = StatNotExist then Mkdir env else None) of
             Some err \<Rightarrow> (Inl err, [])
           | None \<Rightarrow>
               (case ReadDir env of
                  Inl err \<Rightarrow> (Inl err, [])
                | Inr entries \<Rightarrow> parse_entries keys env dir entries [] [])))"

text \<open>
  \<open>main\<close>, from the call of \<open>parse\<close> to the line that reports the count: \<open>None\<close> is the
  \<open>return\<close> that ends \<open>main\<close>, and with it the start-up.
\<close>

definition main_load_packs :: "os_env \<Rightarrow> Pack list option \<times> effect list" where
  "main_load_packs env =
     (case parse Map.empty env of
        (Inl err, log) \<Rightarrow>
          (None, log @ [Log LError ''failed to parse resource packs'' [(''err'', err_text err)]])
      | (Inr ps, log) \<Rightarrow>
          (Some ps, log @ [Log LInfo ''Loaded resource packs'' [(''count'', decimal (length ps))]]))"

section \<open>main.go: handleCommand\<close>

text \<open>What the collaborators answer when the console calls them.\<close>

record world =
  CloseResult :: "error option"
  TransferResult :: "Session \<Rightarrow> string \<Rightarrow> error option"
  NumGoroutine :: nat
  Version :: string
  TotalAllocMB :: string

definition quoted :: "string \<Rightarrow> string" where
  "quoted s = [CHR 0x27] @ s @ [CHR 0x27]"

definition handleCommand ::
  "world \<Rightarrow> ResourcePackServer option \<Rightarrow> server_map \<Rightarrow> Spectrum \<Rightarrow> ServerConfig \<Rightarrow> string
     \<Rightarrow> effect list" where
  "handleCommand w resourcePackServer serverMap proxy conf command =
     (let args = Fields command in
      if length args = 0 then []
      else if hd args = ''players'' then
        (let sessions = GetSessions proxy in
         if length sessions = 0 then [Log LInfo ''No players online'' []]
         else Log LInfo (''Players online ('' @ decimal (length sessions) @ '')'') []
              # map (\<lambda>s. Log LInfo (''- '' @ DisplayName s) []) sessions)
      else if hd args = ''transfer'' then
        (if length args < 3 then [Log LInfo ''Usage: transfer <player> <server>'' []]
         else
           (let playerName = args ! 1;
                serverName = args ! 2
            in case find (\<lambda>s. DisplayName s = playerName) (GetSessions proxy) of
                 None \<Rightarrow> [Log LInfo (''Player '' @ quoted playerName @ '' not found'') []]
               | Some targetSession \<Rightarrow>
                   (let serverAddr =
                          (case find (\<lambda>(name, addr). name = serverName) serverMap of
                             Some (name, addr) \<Rightarrow> addr
                           | None \<Rightarrow> [])
                    in if serverAddr = [] then
                         [Log LInfo (''Server '' @ quoted serverName @ '' not found'') []]
                       else
                         TransferTimeout targetSession serverAddr 10
                         # (case TransferResult w targetSession serverAddr of
                              Some err \<Rightarrow>
                                [Log LError ''Failed to transfer player''
                                   [(''player'', playerName), (''server'', serverName),
                                    (''error'', err_text err)]]
                            | None \<Rightarrow>
                                [Log LInfo (''Transferred '' @ playerName @ '' to '' @ serverName) []]))))
      else if hd args = ''info'' then
        [Log LInfo ''Spectrum Proxy Information'' [],
         Log LInfo (''- Bind Address: '' @ OptsAddr proxy) [],
         Log LInfo (''- Default Server: '' @ DefaultServer conf) [],
         Log LInfo (''- Connected Players: '' @ decimal (length (GetSessions proxy))) [],
         Log LInfo ''Available Servers:'' []]
        @ map (\<lambda>(addr, name). Log LInfo (''- '' @ name @ '' ('' @ addr @ '')'') []) serverMap
        @ [Log LInfo (''Goroutines: '' @ decimal (NumGoroutine w)) [],
           Log LInfo (''Go Version: '' @ Version w) [],
           Log LInfo (''Total Allocated Memory: '' @ TotalAllocMB w @ '' MB'') []]
      else if hd args = ''stop'' \<or> hd args = ''end'' then
        (case resourcePackServer of
           None \<Rightarrow> []
         | Some s \<Rightarrow>
             ServerClose
             # (case CloseResult w of
                  Some err \<Rightarrow>
                    [Log LError ''Failed to close resource pack HTTP server''
                       [(''error'', err_text err)]]
                | None \<Rightarrow> []))
        @ [ProxyClose, Log LInfo ''Stopped proxy'' [], Exit 0]
      else
        [Log LInfo (''Unknown command: '' @ hd args) [],
         Log LInfo ''Available commands: players, transfer, info'' []])"

section \<open>Predicates on traces and auxiliary notions used in the statements\<close>

fun is_transfer :: "effect \<Rightarrow> bool" where
  "is_transfer (TransferTimeout s a t) = True"
| "is_transfer e = False"

fun touches_store :: "effect \<Rightarrow> bool" where
  "touches_store (PacksLookup k) = True"
| "touches_store (CacheLookup k) = True"
| "touches_store (PackReadAt k) = True"
| "touches_store (CacheStore k) = True"
| "touches_store e = False"

text \<open>The pack that \<open>parse\<close> appends for a decoded pack.\<close>

definition keyed :: "(string \<rightharpoonup> string) \<Rightarrow> Pack \<Rightarrow> Pack" where
  "keyed keys pack0 =
     (case keys (UUID pack0) of Some key \<Rightarrow> WithContentKey key pack0 | None \<Rightarrow> pack0)"

text \<open>The goroutines that call \<open>WaitForReady\<close> in a list of calls.\<close>

fun waiters :: "op list \<Rightarrow> nat list" where
  "waiters [] = []"
| "waiters (OpWait g # ops) = g # waiters ops"
| "waiters (OpStart lr # ops) = waiters ops"

section \<open>Concrete inputs\<close>

definition ex_disk :: disk where
  "ex_disk = \<lparr>files = Map.empty, io_of = (\<lambda>p. IoOk)\<rparr>"

definition ex_store :: HistoryFile where
  "ex_store = \<lparr>filePath = ''/home/op/.spectrum/command_history.txt'', maxSize = 2, history = []\<rparr>"

definition ex_world :: world where
  "ex_world = \<lparr>CloseResult = None, TransferResult = (\<lambda>s a. None), NumGoroutine = 12,
                Version = ''go1.24.3'', TotalAllocMB = ''3.50''\<rparr>"

definition ex_conf :: ServerConfig where
  "ex_conf = \<lparr>Name = ''Spectrum Proxy'', BindAddr = ''0.0.0.0:19132'', DefaultServer = ''lobby'',
               ShutdownMessage = ''Proxy shutdown''\<rparr>"

definition ex_servers :: server_map where
  "ex_servers = [(''lobby'', ''127.0.0.1:19133''), (''island1'', ''127.0.0.1:19134'')]"

definition ex_proxy :: Spectrum where
  "ex_proxy = \<lparr>GetSessions = [\<lparr>sid = 1, DisplayName = ''steve''\<rparr>], OptsAddr = ''0.0.0.0:19132''\<rparr>"

definition ok_pack :: Pack where
  "ok_pack = \<lparr>UUID = ''p1'', PackName = ''Textures'', Len = 2, ReadAt = (\<lambda>n off. Inr ''PK''),
               ContentKey = [], DownloadURL = []\<rparr>"

definition ex_srv_cached :: ResourcePackServer where
  "ex_srv_cached = \<lparr>packs = [''p1'' \<mapsto> ok_pack], contentCache = [''p1'' \<mapsto> ''PK''],
                     basePath = ''/srv/resource_packs'', Addr = '':8080'', ready = Open\<rparr>"

definition ex_env_bad :: os_env where
  "ex_env_bad =
     \<lparr>Getwd = Inr ''/srv'', Stat = StatOk, Mkdir = None,
      ReadDir = Inr [''a.zip'', ''b.zip''],
      ReadPath = (\<lambda>p. if p = ''/srv/resource_packs/b.zip'' then Inr ok_pack
                       else Inl (Error ''not a valid zip''))\<rparr>"

definition ex_env_ok :: os_env where
  "ex_env_ok =
     \<lparr>Getwd = Inr ''/srv'', Stat = StatOk, Mkdir = None,
      ReadDir = Inr [''b.zip''],
      ReadPath = (\<lambda>p. Inr ok_pack)\<rparr>"

definition ex_fetch :: "string \<Rightarrow> error + Pack" where
  "ex_fetch url =
     (if url = ''http://cdn/p1'' then Inr (ok_pack\<lparr>DownloadURL := url\<rparr>)
      else Inl (Error ''connection refused''))"

definition ex_refused :: "string \<Rightarrow> error + Pack" where
  "ex_refused url = Inl (Error ''connection refused'')"

section \<open>The history store\<close>

lemma Append_push:
  assumes "0 \<le> maxSize h"
  shows "\<exists>e d'. Append c h d = Inr (e, h\<lparr>history := push (nat (maxSize h)) c (history h)\<rparr>, d')"
  using assms
  by (auto simp: Append_def push_def lastn_def Let_def split: prod.splits)

lemma AppendAll_snoc:
  "AppendAll (cs @ [c]) h d =
     (case AppendAll cs h d of
        Inl p \<Rightarrow> Inl p
      | Inr (h', d') \<Rightarrow> (case Append c h' d' of Inl p \<Rightarrow> Inl p | Inr (e, h'', d'') \<Rightarrow> Inr (h'', d'')))"
  by (induction cs arbitrary: h d) (auto split: sum.splits prod.splits)

lemma remdups_adj_snoc:
  "remdups_adj (ws @ [c]) = (if ws \<noteq> [] \<and> last ws = c then remdups_adj ws else remdups_adj ws @ [c])"
  by (induction ws rule: remdups_adj.induct) auto

lemma last_remdups_adj: "ws \<noteq> [] \<Longrightarrow> last (remdups_adj ws) = last ws"
  by (induction ws rule: remdups_adj.induct) auto

lemma lastn_snoc: "lastn n (lastn n zs @ [c]) = lastn n (zs @ [c])"
proof (cases "length zs < n")
  case True
  then show ?thesis by (simp add: lastn_def)
next
  case False
  then have "Suc (length zs) - n = Suc (length zs - n)" by arith
  with False show ?thesis by (simp add: lastn_def min_def)
qed

lemma last_lastn: "0 < n \<Longrightarrow> zs \<noteq> [] \<Longrightarrow> last (lastn n zs) = last zs"
  by (simp add: lastn_def)

lemma lastn_Nil_iff: "lastn n zs = [] \<longleftrightarrow> n = 0 \<or> zs = []"
proof -
  have "length zs \<le> length zs - n \<longleftrightarrow> n = 0 \<or> length zs = 0" by arith
  then show ?thesis by (simp add: lastn_def)
qed

lemma push_lastn:
  "push n c (lastn n (remdups_adj ws)) = lastn n (remdups_adj (ws @ accepted [c]))"
proof (cases "TrimSpace c = []")
  case True
  then show ?thesis by (simp add: push_def accepted_def)
next
  case False
  show ?thesis
  proof (cases "n = 0 \<or> ws = []")
    case True
    then show ?thesis using False
      by (auto simp: push_def accepted_def lastn_def)
  next
    case nz: False
    then have "last (lastn n (remdups_adj ws)) = last ws" "lastn n (remdups_adj ws) \<noteq> []"
      by (simp_all add: last_lastn last_remdups_adj lastn_Nil_iff)
    then show ?thesis using False nz
      by (simp add: push_def accepted_def remdups_adj_snoc lastn_snoc)
  qed
qed

lemma accepted_snoc: "accepted (cs @ [c]) = accepted cs @ accepted [c]"
  by (simp add: accepted_def)

lemma AppendAll_history:
  assumes "hist_inv h"
  shows "\<exists>h' d'. AppendAll cmds h d = Inr (h', d') \<and> maxSize h' = maxSize h \<and>
           filePath h' = filePath h \<and>
           history h' = lastn (nat (maxSize h)) (remdups_adj (history h @ accepted cmds))"
proof (induction cmds rule: rev_induct)
  case Nil
  from assms have "remdups_adj (history h) = history h" "length (history h) \<le> nat (maxSize h)"
    by (auto simp: hist_inv_def distinct_adj_altdef)
  then show ?case by (simp add: accepted_def lastn_def)
next
  case (snoc c cs)
  then obtain h' d' where run: "AppendAll cs h d = Inr (h', d')"
    and m: "maxSize h' = maxSize h" and f: "filePath h' = filePath h"
    and hs: "history h' = lastn (nat (maxSize h)) (remdups_adj (history h @ accepted cs))"
    by blast
  from assms m have "0 \<le> maxSize h'" by (simp add: hist_inv_def)
  from Append_push [OF this, of c d'] obtain e d''
    where ap: "Append c h' d' = Inr (e, h'\<lparr>history := push (nat (maxSize h')) c (history h')\<rparr>, d'')"
    by blast
  have "push (nat (maxSize h')) c (history h')
          = lastn (nat (maxSize h)) (remdups_adj (history h @ accepted (cs @ [c])))"
    using push_lastn [of "nat (maxSize h)" c "history h @ accepted cs"]
    by (simp add: hs m accepted_snoc)
  with run ap m f show ?case by (simp add: AppendAll_snoc)
qed

lemma distinct_adj_lastn: "distinct_adj xs \<Longrightarrow> distinct_adj (lastn n xs)"
  unfolding lastn_def
  by (metis append_take_drop_id distinct_adj_append_iff)

lemma length_lastn: "length (lastn n xs) \<le> n"
  by (simp add: lastn_def)

lemma hist_inv_lastn:
  "0 \<le> maxSize h' \<Longrightarrow> history h' = lastn (nat (maxSize h')) (remdups_adj ys) \<Longrightarrow> hist_inv h'"
  using length_lastn [of "nat (maxSize h')" "remdups_adj ys"]
  by (simp add: hist_inv_def distinct_adj_lastn)

text \<open>
  Claim C6. Let the store be bounded at \<open>N = maxSize h \<ge> 0\<close> and hold no two adjacent
  equal entries and at most \<open>N\<close> entries (\<open>hist_inv\<close>; the empty store of a new history
  file is such a store). Then every sequence of \<open>Append\<close> calls returns, and leaves a store
  that again holds no two adjacent equal entries and at most \<open>N\<close> entries: it holds the
  last \<open>N\<close> of the old entries followed by the accepted commands (trimmed, non-empty),
  adjacent repetitions dropped, so the oldest entries are the ones evicted. Appending a command
  equal to the last entry leaves store and file unchanged; from the empty store with
  \<open>N \<ge> 1\<close>, appending the same command twice yields a store of length one; and appending
  \<open>N + 5\<close> distinct commands, as the console passes them (trimmed and non-empty), yields
  exactly the last \<open>N\<close> of them.
\<close>

theorem history_append_bounded_dedup:
  assumes "hist_inv h"
  shows "(\<exists>h' d'. AppendAll cmds h d = Inr (h', d') \<and> hist_inv h' \<and> maxSize h' = maxSize h \<and>
            history h' = lastn (nat (maxSize h)) (remdups_adj (history h @ accepted cmds)))
       \<and> (history h \<noteq> [] \<and> TrimSpace c = last (history h) \<longrightarrow> Append c h d = Inr (None, h, d))
       \<and> (history h = [] \<and> 1 \<le> maxSize h \<and> TrimSpace c \<noteq> [] \<longrightarrow>
            (\<exists>h' d'. AppendAll [c, c] h d = Inr (h', d') \<and> history h' = [TrimSpace c]))
       \<and> (history h = [] \<and> distinct cmds \<and> (\<forall>c \<in> set cmds. c \<noteq> [] \<and> TrimSpace c = c) \<and>
            int (length cmds) = maxSize h + 5 \<longrightarrow>
            (\<exists>h' d'. AppendAll cmds h d = Inr (h', d') \<and> history h' = drop 5 cmds))"
proof (intro conjI impI)
  from AppendAll_history [OF assms, of cmds d] obtain h' d'
    where r: "AppendAll cmds h d = Inr (h', d')" "maxSize h' = maxSize h"
      "history h' = lastn (nat (maxSize h)) (remdups_adj (history h @ accepted cmds))"
    by blast
  moreover from r assms have "hist_inv h'"
    using hist_inv_lastn [of h' "history h @ accepted cmds"] by (simp add: hist_inv_def)
  ultimately show "\<exists>h' d'. AppendAll cmds h d = Inr (h', d') \<and> hist_inv h' \<and> maxSize h' = maxSize h \<and>
            history h' = lastn (nat (maxSize h)) (remdups_adj (history h @ accepted cmds))"
    by blast
next
  assume "history h \<noteq> [] \<and> TrimSpace c = last (history h)"
  then show "Append c h d = Inr (None, h, d)"
    by (simp add: Append_def Let_def)
next
  assume a: "history h = [] \<and> 1 \<le> maxSize h \<and> TrimSpace c \<noteq> []"
  from AppendAll_history [OF assms, of "[c, c]" d] obtain h' d'
    where r: "AppendAll [c, c] h d = Inr (h', d')"
      "history h' = lastn (nat (maxSize h)) (remdups_adj (history h @ accepted [c, c]))"
    by blast
  from a have "Suc 0 - nat (maxSize h) = 0" by arith
  with a have "history h' = [TrimSpace c]"
    by (simp add: r accepted_def lastn_def)
  with r show "\<exists>h' d'. AppendAll [c, c] h d = Inr (h', d') \<and> history h' = [TrimSpace c]"
    by blast
next
  assume a: "history h = [] \<and> distinct cmds \<and> (\<forall>c \<in> set cmds. c \<noteq> [] \<and> TrimSpace c = c) \<and>
            int (length cmds) = maxSize h + 5"
  from AppendAll_history [OF assms, of cmds d] obtain h' d'
    where r: "AppendAll cmds h d = Inr (h', d')"
      "history h' = lastn (nat (maxSize h)) (remdups_adj (history h @ accepted cmds))"
    by blast
  from a have "map TrimSpace cmds = cmds" by (simp add: map_idI)
  with a have acc: "accepted cmds = cmds" by (simp add: accepted_def)
  from a have "remdups_adj cmds = cmds"
    by (simp add: distinct_adj_altdef [symmetric] distinct_adj_conv_nth nth_eq_iff_index_eq)
  moreover from a assms have "length cmds - nat (maxSize h) = 5"
    by (simp add: hist_inv_def) arith
  ultimately have "history h' = drop 5 cmds"
    using a by (simp add: r acc lastn_def)
  with r show "\<exists>h' d'. AppendAll cmds h d = Inr (h', d') \<and> history h' = drop 5 cmds"
    by blast
qed

text \<open>The store bounded at 2: the same command twice, and seven distinct commands.\<close>

theorem history_append_bounded_dedup_witness:
  "hist_inv ex_store
   \<and> (case AppendAll [''players'', ''players''] ex_store ex_disk of
        Inr (h', d') \<Rightarrow> history h' = [''players'']
      | Inl p \<Rightarrow> False)
   \<and> (case AppendAll [''a'', ''b'', ''c'', ''d'', ''e'', ''f'', ''g''] ex_store ex_disk of
        Inr (h', d') \<Rightarrow> history h' = [''f'', ''g'']
      | Inl p \<Rightarrow> False)"
proof -
  have i: "hist_inv ex_store" by (simp add: hist_inv_def ex_store_def)
  have t: "TrimSpace ''players'' \<noteq> []" by (simp add: TrimSpace_def IsSpace_def)
  have m: "history ex_store = []" "1 \<le> maxSize ex_store" by (simp_all add: ex_store_def)
  let ?cs = "[''a'', ''b'', ''c'', ''d'', ''e'', ''f'', ''g'']"
  have c: "distinct ?cs" "\<forall>c \<in> set ?cs. c \<noteq> [] \<and> TrimSpace c = c"
    "int (length ?cs) = maxSize ex_store + 5"
    by (simp_all add: TrimSpace_def IsSpace_def ex_store_def)
  from history_append_bounded_dedup [OF i, of ?cs ex_disk "''players''"] t m c
  obtain h1 d1 h2 d2 where
    "AppendAll [''players'', ''players''] ex_store ex_disk = Inr (h1, d1)"
    "history h1 = [TrimSpace ''players'']"
    "AppendAll ?cs ex_store ex_disk = Inr (h2, d2)" "history h2 = drop 5 ?cs"
    by blast
  with i show ?thesis by (simp add: TrimSpace_def IsSpace_def)
qed

section \<open>Completion of the command name\<close>

lemma Split_length: "length (Split t c) = Suc (count_list t c)"
  by (induction t) (auto simp: Let_def)

lemma Split_ne: "Split t c \<noteq> []"
  using Split_length [of t c] by auto

lemma Split_absent: "c \<notin> set t \<Longrightarrow> Split t c = [t]"
  by (induction t) (auto simp: Let_def)

lemma Split_single: "length (Split t c) \<le> 1 \<Longrightarrow> c \<notin> set t"
  by (simp add: Split_length count_list_0_iff)

lemma word_whole:
  assumes "CHR '' '' \<notin> set t" "CHR 0x0A \<notin> set t"
  shows "rev (takeWhile (\<lambda>c. \<not> word_sep c) (rev t)) = t"
proof -
  have "takeWhile (\<lambda>c. \<not> word_sep c) (rev t) = rev t"
    using assms by (auto simp: takeWhile_eq_all_conv word_sep_def)
  then show ?thesis by (simp only: rev_rev_ident)
qed

lemma commands_names: "map Text commands = [''players'', ''transfer'', ''info'', ''stop'', ''exit'']"
  by (simp add: commands_def)

lemma Complete_trans:
  "Complete ToUpper p m \<lparr>doc_text = ''trans'', cursorPosition = 5\<rparr>
     = ([\<lparr>Text = ''transfer'', Description = ''Transfer a player to another server''\<rparr>], 0, 5)"
  by (simp add: Complete_def GetWordBeforeCursor_def TextBeforeCursor_def word_sep_def
      CurrentRuneIndex_def RuneCountInString_def completeCommand_def FilterHasPrefix_def
      commands_def ToUpper_def upper_char_def Let_def)

text \<open>
  Claim C7. When the word before the cursor is empty, \<open>Complete\<close> yields no candidates
  and the span \<open>(0, 0)\<close>. When exactly one token precedes the cursor on the console line
  (splitting the text before the cursor at spaces gives one piece, and the line has no line
  break) and the word is not empty, the candidates are exactly the entries of the vocabulary
  players, transfer, info, stop, exit whose upper-cased name starts with the upper-cased word,
  in the declared order, and the span is the word. The input \<open>trans\<close> with the cursor at
  its end yields only transfer. The case mapping \<open>up\<close> is that of \<open>strings.ToUpper\<close>.
\<close>

theorem complete_command_name:
  "(GetWordBeforeCursor d = [] \<longrightarrow> Complete up p m d = ([], 0, 0))
   \<and> (length (Split (TextBeforeCursor d) (CHR '' '')) \<le> 1 \<and> CHR 0x0A \<notin> set (TextBeforeCursor d)
        \<and> GetWordBeforeCursor d \<noteq> [] \<longrightarrow>
        (\<exists>cands. Complete up p m d
             = (cands, int (cursorPosition d) - int (length (GetWordBeforeCursor d)), int (cursorPosition d))
           \<and> cands = filter (\<lambda>s. prefix (up (GetWordBeforeCursor d)) (up (Text s))) commands
           \<and> map Text cands
               = filter (\<lambda>n. prefix (up (GetWordBeforeCursor d)) (up n))
                   [''players'', ''transfer'', ''info'', ''stop'', ''exit'']))
   \<and> Complete ToUpper p m \<lparr>doc_text = ''trans'', cursorPosition = 5\<rparr>
        = ([\<lparr>Text = ''transfer'', Description = ''Transfer a player to another server''\<rparr>], 0, 5)"
proof (intro conjI impI)
  assume "GetWordBeforeCursor d = []"
  then show "Complete up p m d = ([], 0, 0)" by (simp add: Complete_def)
next
  let ?t = "TextBeforeCursor d" and ?w = "GetWordBeforeCursor d"
  assume a: "length (Split ?t (CHR '' '')) \<le> 1 \<and> CHR 0x0A \<notin> set ?t \<and> ?w \<noteq> []"
  then have ns: "CHR '' '' \<notin> set ?t" by (simp add: Split_single)
  with a have w: "?w = ?t" by (simp add: GetWordBeforeCursor_def word_whole)
  from ns have sp: "Split ?t (CHR '' '') = [?t]" by (rule Split_absent)
  let ?c = "filter (\<lambda>s. prefix (up ?w) (up (Text s))) commands"
  from a have "Complete up p m d = (?c, int (cursorPosition d) - int (length ?w), int (cursorPosition d))"
    unfolding Complete_def Let_def sp
    by (simp add: w [symmetric] completeCommand_def FilterHasPrefix_def
        CurrentRuneIndex_def RuneCountInString_def)
  moreover have "map Text ?c = filter (\<lambda>n. prefix (up ?w) (up n)) (map Text commands)"
    by (simp add: filter_map comp_def)
  ultimately show "\<exists>cands. Complete up p m d
             = (cands, int (cursorPosition d) - int (length ?w), int (cursorPosition d))
           \<and> cands = ?c
           \<and> map Text cands
               = filter (\<lambda>n. prefix (up ?w) (up n))
                   [''players'', ''transfer'', ''info'', ''stop'', ''exit'']"
    by (simp add: commands_names)
next
  show "Complete ToUpper p m \<lparr>doc_text = ''trans'', cursorPosition = 5\<rparr>
        = ([\<lparr>Text = ''transfer'', Description = ''Transfer a player to another server''\<rparr>], 0, 5)"
    by (rule Complete_trans)
qed

text \<open>\<open>ST\<close> completes to stop; after \<open>transfer\<close> and a space the word is empty.\<close>

theorem complete_command_name_witness:
  "Complete ToUpper ex_proxy ex_servers \<lparr>doc_text = ''ST'', cursorPosition = 2\<rparr>
     = ([\<lparr>Text = ''stop'', Description = ''Stop the server''\<rparr>], 0, 2)
   \<and> Complete ToUpper ex_proxy ex_servers \<lparr>doc_text = ''transfer '', cursorPosition = 9\<rparr>
     = ([], 0, 0)"
proof -
  let ?d = "\<lparr>doc_text = ''ST'', cursorPosition = 2\<rparr>"
  let ?e = "\<lparr>doc_text = ''transfer '', cursorPosition = 9\<rparr>"
  have w: "GetWordBeforeCursor ?d = ''ST''" "TextBeforeCursor ?d = ''ST''"
    by (simp_all add: GetWordBeforeCursor_def TextBeforeCursor_def word_sep_def)
  have we: "GetWordBeforeCursor ?e = []"
    by (simp add: GetWordBeforeCursor_def TextBeforeCursor_def word_sep_def)
  from complete_command_name [of ?d ToUpper ex_proxy ex_servers] w
  have "Complete ToUpper ex_proxy ex_servers ?d
          = (filter (\<lambda>s. prefix (ToUpper ''ST'') (ToUpper (Text s))) commands, 0, 2)"
    by simp
  moreover from complete_command_name [of ?e ToUpper ex_proxy ex_servers] we
  have "Complete ToUpper ex_proxy ex_servers ?e = ([], 0, 0)"
    by simp
  ultimately show ?thesis
    by (simp add: commands_def ToUpper_def upper_char_def)
qed

section \<open>The command dispatcher\<close>

lemma Fields_exit: "Fields ''exit'' = [''exit'']"
  by (simp add: Fields_def IsSpace_def)

lemma Fields_stop: "Fields ''stop'' = [''stop'']"
  by (simp add: Fields_def IsSpace_def)

text \<open>
  Claim C1 (the code at the input \<open>exit\<close>). \<open>handleCommand\<close> dispatches \<open>stop\<close> and
  \<open>end\<close> to the shutdown branch; the line \<open>exit\<close>, which the completer offers with the
  description "Stop the server", falls to the default branch: it is reported as an unknown
  command, nothing is closed and the process does not exit.
\<close>

theorem exit_not_dispatched_as_stop:
  "handleCommand w rps serverMap proxy conf ''exit''
     = [Log LInfo ''Unknown command: exit'' [],
        Log LInfo ''Available commands: players, transfer, info'' []]
   \<and> handleCommand w rps serverMap proxy conf ''stop''
     = (case rps of
          None \<Rightarrow> []
        | Some s \<Rightarrow>
            ServerClose
            # (case CloseResult w of
                 Some err \<Rightarrow>
                   [Log LError ''Failed to close resource pack HTTP server''
                      [(''error'', err_text err)]]
               | None \<Rightarrow> []))
       @ [ProxyClose, Log LInfo ''Stopped proxy'' [], Exit 0]
   \<and> handleCommand w rps serverMap proxy conf ''exit''
       \<noteq> handleCommand w rps serverMap proxy conf ''stop''"
  by (simp add: handleCommand_def Fields_exit Fields_stop split: option.splits)

text \<open>
  Claim C9. For a line whose first field is \<open>transfer\<close>: with fewer than two further
  fields the usage message is logged and nothing else happens; with two or more, when no
  connected session has a display name equal to the first of them (an exact comparison of
  strings), "Player '...' not found" is logged and nothing else happens. In both cases
  \<open>TransferTimeout\<close> is not called.
\<close>

theorem transfer_usage_and_unknown_player:
  assumes "Fields command = ''transfer'' # rest"
  shows "(length rest < 2 \<longrightarrow>
            handleCommand w rps serverMap proxy conf command
              = [Log LInfo ''Usage: transfer <player> <server>'' []])
       \<and> (2 \<le> length rest \<and> (\<forall>s \<in> set (GetSessions proxy). DisplayName s \<noteq> rest ! 0) \<longrightarrow>
            handleCommand w rps serverMap proxy conf command
              = [Log LInfo (''Player '' @ quoted (rest ! 0) @ '' not found'') []])
       \<and> (length rest < 2 \<or> (\<forall>s \<in> set (GetSessions proxy). DisplayName s \<noteq> rest ! 0) \<longrightarrow>
            \<not> list_ex is_transfer (handleCommand w rps serverMap proxy conf command))"
proof -
  have usage: "handleCommand w rps serverMap proxy conf command
              = [Log LInfo ''Usage: transfer <player> <server>'' []]" if "length rest < 2"
    using that assms by (simp add: handleCommand_def)
  have nf: "handleCommand w rps serverMap proxy conf command
              = [Log LInfo (''Player '' @ quoted (rest ! 0) @ '' not found'') []]"
    if "2 \<le> length rest" "\<forall>s \<in> set (GetSessions proxy). DisplayName s \<noteq> rest ! 0"
  proof -
    from that(2) have "find (\<lambda>s. DisplayName s = rest ! 0) (GetSessions proxy) = None"
      by (simp add: find_None_iff)
    with that(1) assms show ?thesis
      by (simp add: handleCommand_def Let_def)
  qed
  show ?thesis
  proof (intro conjI impI)
    assume "length rest < 2"
    then show "handleCommand w rps serverMap proxy conf command
              = [Log LInfo ''Usage: transfer <player> <server>'' []]" by (rule usage)
  next
    assume "2 \<le> length rest \<and> (\<forall>s \<in> set (GetSessions proxy). DisplayName s \<noteq> rest ! 0)"
    then show "handleCommand w rps serverMap proxy conf command
              = [Log LInfo (''Player '' @ quoted (rest ! 0) @ '' not found'') []]"
      using nf by blast
  next
    assume a: "length rest < 2 \<or> (\<forall>s \<in> set (GetSessions proxy). DisplayName s \<noteq> rest ! 0)"
    show "\<not> list_ex is_transfer (handleCommand w rps serverMap proxy conf command)"
    proof (cases "length rest < 2")
      case True
      then show ?thesis by (simp add: usage)
    next
      case False
      with a have "2 \<le> length rest" "\<forall>s \<in> set (GetSessions proxy). DisplayName s \<noteq> rest ! 0"
        by auto
      then show ?thesis by (simp add: nf)
    qed
  qed
qed

text \<open>One session, \<open>steve\<close>; the player asked for is \<open>Steve\<close>.\<close>

theorem transfer_usage_and_unknown_player_witness:
  "handleCommand ex_world None ex_servers ex_proxy ex_conf ''transfer Steve''
     = [Log LInfo ''Usage: transfer <player> <server>'' []]
   \<and> handleCommand ex_world None ex_servers ex_proxy ex_conf ''transfer Steve lobby''
     = [Log LInfo (''Player '' @ quoted ''Steve'' @ '' not found'') []]
   \<and> \<not> list_ex is_transfer (handleCommand ex_world None ex_servers ex_proxy ex_conf ''transfer Steve lobby'')"
proof -
  have f1: "Fields ''transfer Steve'' = ''transfer'' # [''Steve'']"
    by (simp add: Fields_def IsSpace_def)
  have f2: "Fields ''transfer Steve lobby'' = ''transfer'' # [''Steve'', ''lobby'']"
    by (simp add: Fields_def IsSpace_def)
  have n: "\<forall>s \<in> set (GetSessions ex_proxy). DisplayName s \<noteq> [''Steve'', ''lobby''] ! 0"
    by (simp add: ex_proxy_def)
  from transfer_usage_and_unknown_player
         [OF f1, where w = ex_world and rps = None and serverMap = ex_servers
            and proxy = ex_proxy and conf = ex_conf]
       transfer_usage_and_unknown_player
         [OF f2, where w = ex_world and rps = None and serverMap = ex_servers
            and proxy = ex_proxy and conf = ex_conf] n
  show ?thesis by simp
qed

section \<open>Requests for packs\<close>

text \<open>
  Claim C4. When the path, its leading slash stripped, is empty or contains \<open>..\<close> or
  \<open>/\<close>, \<open>handleRequest\<close> answers 404, leaves the server as it was, and its trace is the
  one debug line: neither the pack set nor the content cache is looked up, no pack is read
  and nothing is stored in the cache.
\<close>

theorem traversal_rejected_before_lookup:
  assumes "path = TrimPrefix urlPath ''/''"
    and "path = [] \<or> Contains path ''..'' \<or> Contains path ''/''"
  shows "handleRequest wr s urlPath
           = (http_NotFound, s, [Log LDebug ''Received request'' [(''path'', path)]])
       \<and> status (fst (handleRequest wr s urlPath)) = 404
       \<and> \<not> list_ex touches_store (snd (snd (handleRequest wr s urlPath)))"
  using assms by (auto simp: handleRequest_def Let_def http_NotFound_def http_Error_def)

theorem traversal_rejected_before_lookup_witness:
  "handleRequest None ex_srv_cached ''/../secret''
     = (http_NotFound, ex_srv_cached, [Log LDebug ''Received request'' [(''path'', ''../secret'')]])
   \<and> handleRequest None ex_srv_cached ''/''
     = (http_NotFound, ex_srv_cached, [Log LDebug ''Received request'' [(''path'', [])]])
   \<and> \<not> list_ex touches_store (snd (snd (handleRequest None ex_srv_cached ''/a/p1'')))"
proof -
  have 1: "''../secret'' = TrimPrefix ''/../secret'' ''/''"
    "''../secret'' = [] \<or> Contains ''../secret'' ''..'' \<or> Contains ''../secret'' ''/''"
    by (simp_all add: TrimPrefix_def)
  have 2: "[] = TrimPrefix ''/'' ''/''" "[] = [] \<or> Contains [] ''..'' \<or> Contains [] ''/''"
    by (simp_all add: TrimPrefix_def)
  have 3: "''a/p1'' = TrimPrefix ''/a/p1'' ''/''"
    "''a/p1'' = [] \<or> Contains ''a/p1'' ''..'' \<or> Contains ''a/p1'' ''/''"
    by (simp_all add: TrimPrefix_def)
  from traversal_rejected_before_lookup [OF 1, of None ex_srv_cached]
       traversal_rejected_before_lookup [OF 2, of None ex_srv_cached]
       traversal_rejected_before_lookup [OF 3, of None ex_srv_cached]
  show ?thesis by simp
qed

text \<open>
  Claim C3, as stated, fails: when the write of the body fails, the pack is in the pack set
  and in the cache, and the response does not hold its content.
\<close>

theorem failed_write_counterexample:
  "packs ex_srv_cached ''p1'' = Some ok_pack
   \<and> contentCache ex_srv_cached ''p1'' = Some ''PK''
   \<and> TrimPrefix ''/p1'' ''/'' = ''p1''
   \<and> \<not> Contains ''p1'' ''..'' \<and> \<not> Contains ''p1'' ''/''
   \<and> body (fst (handleRequest (Some (0, Error ''broken pipe'')) ex_srv_cached ''/p1'')) = []
   \<and> body (fst (handleRequest (Some (0, Error ''broken pipe'')) ex_srv_cached ''/p1'')) \<noteq> ''PK''"
  by (simp add: handleRequest_def ex_srv_cached_def write_pack_def TrimPrefix_def Let_def)

text \<open>
  Claim C3, amended. For a non-empty identifier without \<open>..\<close> and \<open>/\<close>: if it is not in
  the pack set the answer is 404, whatever the cache holds. If it is in the pack set and
  its content is cached, or is not cached and is read from the pack, the content is in the
  cache afterwards and, when the write of the body succeeds, the answer is 200 with the
  three headers and the content as body, \<open>Content-Length\<close> being the length of that body;
  when the write fails, the response holds only the bytes written before the failure and
  the failure is logged.
\<close>

theorem handleRequest_serves_pack:
  assumes "path = TrimPrefix urlPath ''/''"
    and "path \<noteq> []" and "\<not> Contains path ''..''" and "\<not> Contains path ''/''"
  shows "(packs s path = None \<longrightarrow>
            fst (handleRequest wr s urlPath) = http_NotFound
            \<and> status (fst (handleRequest wr s urlPath)) = 404
            \<and> fst (snd (handleRequest wr s urlPath)) = s)
       \<and> (\<forall>pack content.
            packs s path = Some pack \<and>
            (contentCache s path = Some content
             \<or> contentCache s path = None \<and> read_content pack = Inr content) \<longrightarrow>
            fst (snd (handleRequest wr s urlPath))
              = s\<lparr>contentCache := (contentCache s)(path \<mapsto> content)\<rparr>
            \<and> (wr = None \<longrightarrow>
                 fst (handleRequest wr s urlPath)
                   = \<lparr>status = 200,
                      headers = [(''Content-Disposition'', ''attachment; filename='' @ path @ ''.mcpack''),
                                 (''Content-Type'', ''application/zip''),
                                 (''Content-Length'', decimal (length content))],
                      body = content\<rparr>)
            \<and> (\<forall>n err. wr = Some (n, err) \<longrightarrow>
                 body (fst (handleRequest wr s urlPath)) = take n content
                 \<and> last (snd (snd (handleRequest wr s urlPath)))
                     = Log LError ''Failed to write resource pack to response''
                         [(''uuid'', path), (''error'', err_text err)]))"
proof (intro conjI allI impI)
  assume "packs s path = None"
  with assms show "fst (handleRequest wr s urlPath) = http_NotFound"
    "status (fst (handleRequest wr s urlPath)) = 404"
    "fst (snd (handleRequest wr s urlPath)) = s"
    by (simp_all add: handleRequest_def Let_def http_NotFound_def http_Error_def)
next
  fix pack content
  assume a: "packs s path = Some pack \<and>
            (contentCache s path = Some content
             \<or> contentCache s path = None \<and> read_content pack = Inr content)"
  have upd: "contentCache s path = Some content \<Longrightarrow>
      s\<lparr>contentCache := (contentCache s)(path \<mapsto> content)\<rparr> = s"
    by (simp add: map_upd_triv)
  from a assms upd show "fst (snd (handleRequest wr s urlPath))
                = s\<lparr>contentCache := (contentCache s)(path \<mapsto> content)\<rparr>"
    by (auto simp: handleRequest_def Let_def write_pack_def)
  {
    assume "wr = None"
    with a assms show "fst (handleRequest wr s urlPath)
                   = \<lparr>status = 200,
                      headers = [(''Content-Disposition'', ''attachment; filename='' @ path @ ''.mcpack''),
                                 (''Content-Type'', ''application/zip''),
                                 (''Content-Length'', decimal (length content))],
                      body = content\<rparr>"
      by (auto simp: handleRequest_def Let_def write_pack_def)
  }
  {
    fix n err
    assume "wr = Some (n, err)"
    with a assms show "body (fst (handleRequest wr s urlPath)) = take n content"
      "last (snd (snd (handleRequest wr s urlPath)))
                     = Log LError ''Failed to write resource pack to response''
                         [(''uuid'', path), (''error'', err_text err)]"
      by (auto simp: handleRequest_def Let_def write_pack_def)
  }
qed

text \<open>
  A cached pack, an unknown identifier, a lazy fill, and a write that fails after one byte.
\<close>

theorem handleRequest_serves_pack_witness:
  "fst (handleRequest None ex_srv_cached ''/p1'')
     = \<lparr>status = 200,
        headers = [(''Content-Disposition'', ''attachment; filename=p1.mcpack''),
                   (''Content-Type'', ''application/zip''),
                   (''Content-Length'', ''2'')],
        body = ''PK''\<rparr>
   \<and> status (fst (handleRequest None ex_srv_cached ''/p2'')) = 404
   \<and> fst (handleRequest None (ex_srv_cached\<lparr>contentCache := Map.empty\<rparr>) ''/p1'')
       = fst (handleRequest None ex_srv_cached ''/p1'')
   \<and> contentCache (fst (snd (handleRequest None (ex_srv_cached\<lparr>contentCache := Map.empty\<rparr>) ''/p1''))) ''p1''
       = Some ''PK''
   \<and> body (fst (handleRequest (Some (1, Error ''broken pipe'')) ex_srv_cached ''/p1'')) = ''P''"
proof -
  have p1: "''p1'' = TrimPrefix ''/p1'' ''/''" "''p1'' \<noteq> []"
    "\<not> Contains ''p1'' ''..''" "\<not> Contains ''p1'' ''/''"
    by (simp_all add: TrimPrefix_def)
  have p2: "''p2'' = TrimPrefix ''/p2'' ''/''" "''p2'' \<noteq> []"
    "\<not> Contains ''p2'' ''..''" "\<not> Contains ''p2'' ''/''"
    by (simp_all add: TrimPrefix_def)
  have c: "packs ex_srv_cached ''p1'' = Some ok_pack" "contentCache ex_srv_cached ''p1'' = Some ''PK''"
    "packs ex_srv_cached ''p2'' = None"
    by (simp_all add: ex_srv_cached_def)
  let ?e = "ex_srv_cached\<lparr>contentCache := Map.empty\<rparr>"
  have l: "packs ?e ''p1'' = Some ok_pack" "contentCache ?e ''p1'' = None"
    "read_content ok_pack = Inr ''PK''"
    by (simp_all add: ex_srv_cached_def read_content_def ok_pack_def)
  have d: "decimal (length ''PK'') = ''2''" by (simp add: decimal.simps digit_def)
  from handleRequest_serves_pack [OF p1, of ex_srv_cached None] c d
  have 1: "fst (handleRequest None ex_srv_cached ''/p1'')
     = \<lparr>status = 200,
        headers = [(''Content-Disposition'', ''attachment; filename=p1.mcpack''),
                   (''Content-Type'', ''application/zip''),
                   (''Content-Length'', ''2'')],
        body = ''PK''\<rparr>"
    by simp
  from handleRequest_serves_pack [OF p2, of ex_srv_cached None] c
  have 2: "status (fst (handleRequest None ex_srv_cached ''/p2'')) = 404" by blast
  from handleRequest_serves_pack [OF p1, of ?e None] l d
  have 4: "fst (handleRequest None ?e ''/p1'')
     = \<lparr>status = 200,
        headers = [(''Content-Disposition'', ''attachment; filename=p1.mcpack''),
                   (''Content-Type'', ''application/zip''),
                   (''Content-Length'', ''2'')],
        body = ''PK''\<rparr>"
    "fst (snd (handleRequest None ?e ''/p1'')) = ?e\<lparr>contentCache := (contentCache ?e)(''p1'' \<mapsto> ''PK'')\<rparr>"
    by simp_all
  from handleRequest_serves_pack [OF p1, of ex_srv_cached "Some (1, Error ''broken pipe'')"] c
  have 5: "body (fst (handleRequest (Some (1, Error ''broken pipe'')) ex_srv_cached ''/p1'')) = take 1 ''PK''"
    by simp
  from 1 2 4 5 show ?thesis by simp
qed

section \<open>Loading the packs\<close>

lemma parse_entries_fail:
  assumes "find (\<lambda>e. isl (ReadPath env (path_Join dir e))) entries = Some bad"
  shows "parse_entries keys env dir entries ps log
           = (Inl (projl (ReadPath env (path_Join dir bad))),
              log @ map (\<lambda>e. Log LDebug ''Loaded pack''
                               [(''name'', PackName (keyed keys (projr (ReadPath env (path_Join dir e))))),
                                (''uuid'', UUID (keyed keys (projr (ReadPath env (path_Join dir e)))))])
                        (takeWhile (\<lambda>e. \<not> isl (ReadPath env (path_Join dir e))) entries))"
  using assms
proof (induction entries arbitrary: ps log)
  case Nil
  then show ?case by simp
next
  case (Cons e es)
  show ?case
  proof (cases "ReadPath env (path_Join dir e)")
    case (Inl err)
    with Cons.prems show ?thesis by auto
  next
    case (Inr pack0)
    with Cons.prems have "find (\<lambda>e. isl (ReadPath env (path_Join dir e))) es = Some bad"
      by simp
    from Cons.IH [OF this] Inr show ?thesis
      by (simp add: keyed_def Let_def split: option.splits)
  qed
qed

lemma parse_entries_ok:
  assumes "find (\<lambda>e. isl (ReadPath env (path_Join dir e))) entries = None"
  shows "fst (parse_entries keys env dir entries ps log)
           = Inr (ps @ map (\<lambda>e. keyed keys (projr (ReadPath env (path_Join dir e)))) entries)"
  using assms
proof (induction entries arbitrary: ps log)
  case Nil
  then show ?case by simp
next
  case (Cons e es)
  then obtain pack0 where r: "ReadPath env (path_Join dir e) = Inr pack0"
    by (cases "ReadPath env (path_Join dir e)") (auto split: if_splits)
  with Cons.prems have "find (\<lambda>e. isl (ReadPath env (path_Join dir e))) es = None"
    by (simp split: if_splits)
  from Cons.IH [OF this] r show ?case
    by (simp add: keyed_def Let_def split: option.splits)
qed

lemma parse_dir:
  assumes "Getwd env = Inr wd" and "Stat env = StatNotExist \<longrightarrow> Mkdir env = None"
    and "ReadDir env = Inr entries"
  shows "parse keys env = parse_entries keys env (path_Join wd ''resource_packs'') entries [] []"
  using assms by (auto simp: parse_def Let_def)

text \<open>
  Claim C2, as stated, fails: with two entries of which the first does not decode, \<open>parse\<close>
  returns the error and no pack, and \<open>main\<close> logs it and returns; the second entry is
  never loaded.
\<close>

theorem decode_failure_aborts_load_counterexample:
  "ReadDir ex_env_bad = Inr [''a.zip'', ''b.zip'']
   \<and> ReadPath ex_env_bad ''/srv/resource_packs/a.zip'' = Inl (Error ''not a valid zip'')
   \<and> ReadPath ex_env_bad ''/srv/resource_packs/b.zip'' = Inr ok_pack
   \<and> fst (parse Map.empty ex_env_bad) = Inl (Error ''not a valid zip'')
   \<and> main_load_packs ex_env_bad
       = (None, [Log LError ''failed to parse resource packs'' [(''err'', ''not a valid zip'')]])"
  by (simp add: ex_env_bad_def parse_def main_load_packs_def path_Join_def Let_def)

text \<open>
  Claim C2, amended. When the working directory and the pack directory can be read: if some
  entry fails to decode, \<open>parse\<close> returns the error of the first such entry and no packs,
  and \<open>main\<close> logs "failed to parse resource packs" and ends the start-up; if every entry
  decodes, \<open>parse\<close> returns the packs of all entries in directory order and the start-up
  goes on with them.
\<close>

theorem parse_decode_failure_aborts:
  assumes "Getwd env = Inr wd" and "Stat env = StatNotExist \<longrightarrow> Mkdir env = None"
    and "ReadDir env = Inr entries" and "dir = path_Join wd ''resource_packs''"
  shows "(\<forall>bad. find (\<lambda>e. isl (ReadPath env (path_Join dir e))) entries = Some bad \<longrightarrow>
            fst (parse keys env) = Inl (projl (ReadPath env (path_Join dir bad)))
            \<and> fst (main_load_packs env) = None
            \<and> last (snd (main_load_packs env))
                = Log LError ''failed to parse resource packs''
                    [(''err'', err_text (projl (ReadPath env (path_Join dir bad))))])
       \<and> (find (\<lambda>e. isl (ReadPath env (path_Join dir e))) entries = None \<longrightarrow>
            fst (parse keys env)
              = Inr (map (\<lambda>e. keyed keys (projr (ReadPath env (path_Join dir e)))) entries)
            \<and> fst (main_load_packs env)
              = Some (map (\<lambda>e. keyed Map.empty (projr (ReadPath env (path_Join dir e)))) entries))"
proof (intro conjI allI impI)
  fix bad
  assume b: "find (\<lambda>e. isl (ReadPath env (path_Join dir e))) entries = Some bad"
  from parse_entries_fail [OF b, of keys "[]" "[]"] assms
  show "fst (parse keys env) = Inl (projl (ReadPath env (path_Join dir bad)))"
    by (simp add: parse_dir)
  from parse_entries_fail [OF b, of Map.empty "[]" "[]"] assms
  have p: "fst (parse Map.empty env) = Inl (projl (ReadPath env (path_Join dir bad)))"
    by (simp add: parse_dir)
  then show "fst (main_load_packs env) = None"
    by (cases "parse Map.empty env") (simp add: main_load_packs_def)
  from p show "last (snd (main_load_packs env))
                = Log LError ''failed to parse resource packs''
                    [(''err'', err_text (projl (ReadPath env (path_Join dir bad))))]"
    by (cases "parse Map.empty env") (simp add: main_load_packs_def)
next
  assume n: "find (\<lambda>e. isl (ReadPath env (path_Join dir e))) entries = None"
  from parse_entries_ok [OF n, of keys "[]" "[]"] assms
  show "fst (parse keys env)
              = Inr (map (\<lambda>e. keyed keys (projr (ReadPath env (path_Join dir e)))) entries)"
    by (simp add: parse_dir)
  from parse_entries_ok [OF n, of Map.empty "[]" "[]"] assms
  have "fst (parse Map.empty env)
              = Inr (map (\<lambda>e. keyed Map.empty (projr (ReadPath env (path_Join dir e)))) entries)"
    by (simp add: parse_dir)
  then show "fst (main_load_packs env)
              = Some (map (\<lambda>e. keyed Map.empty (projr (ReadPath env (path_Join dir e)))) entries)"
    by (cases "parse Map.empty env") (simp add: main_load_packs_def)
qed

text \<open>A directory whose first entry is not a pack, and one with a single good pack.\<close>

theorem parse_decode_failure_aborts_witness:
  "fst (parse Map.empty ex_env_bad) = Inl (Error ''not a valid zip'')
   \<and> fst (main_load_packs ex_env_bad) = None
   \<and> fst (main_load_packs ex_env_ok) = Some [ok_pack]"
proof -
  have b: "Getwd ex_env_bad = Inr ''/srv''" "Stat ex_env_bad = StatNotExist \<longrightarrow> Mkdir ex_env_bad = None"
    "ReadDir ex_env_bad = Inr [''a.zip'', ''b.zip'']"
    by (simp_all add: ex_env_bad_def)
  have k: "Getwd ex_env_ok = Inr ''/srv''" "Stat ex_env_ok = StatNotExist \<longrightarrow> Mkdir ex_env_ok = None"
    "ReadDir ex_env_ok = Inr [''b.zip'']"
    by (simp_all add: ex_env_ok_def)
  have d: "''/srv/resource_packs'' = path_Join ''/srv'' ''resource_packs''"
    by (simp add: path_Join_def)
  have fb: "find (\<lambda>e. isl (ReadPath ex_env_bad (path_Join ''/srv/resource_packs'' e))) [''a.zip'', ''b.zip'']
              = Some ''a.zip''"
    "projl (ReadPath ex_env_bad (path_Join ''/srv/resource_packs'' ''a.zip'')) = Error ''not a valid zip''"
    by (simp_all add: ex_env_bad_def path_Join_def)
  have fk: "find (\<lambda>e. isl (ReadPath ex_env_ok (path_Join ''/srv/resource_packs'' e))) [''b.zip''] = None"
    "keyed Map.empty (projr (ReadPath ex_env_ok (path_Join ''/srv/resource_packs'' ''b.zip''))) = ok_pack"
    by (simp_all add: ex_env_ok_def keyed_def)
  from parse_decode_failure_aborts [OF b d, of Map.empty] fb
       parse_decode_failure_aborts [OF k d, of Map.empty] fk
  show ?thesis by simp
qed

section \<open>The CDN rewrite\<close>

lemma cdn_ok:
  assumes "\<forall>pack \<in> set ps. \<not> isl (ReadURL (cdn_url baseURL pack))"
  shows "ModifyResourcePackForCDN ReadURL ps baseURL
           = Inr (map (\<lambda>pack. projr (ReadURL (cdn_url baseURL pack))) ps)"
  using assms
proof (induction ps)
  case Nil
  then show ?case by simp
next
  case (Cons pack rest)
  then obtain q where "ReadURL (cdn_url baseURL pack) = Inr q"
    by (cases "ReadURL (cdn_url baseURL pack)") auto
  with Cons show ?case by (simp add: MustReadURL_def)
qed

lemma cdn_panic:
  assumes "\<exists>pack \<in> set ps. isl (ReadURL (cdn_url baseURL pack))"
  shows "isl (ModifyResourcePackForCDN ReadURL ps baseURL)"
  using assms
proof (induction ps)
  case Nil
  then show ?case by simp
next
  case (Cons pack rest)
  show ?case
  proof (cases "ReadURL (cdn_url baseURL pack)")
    case (Inl err)
    then show ?thesis by (simp add: MustReadURL_def)
  next
    case (Inr q)
    with Cons.prems have "\<exists>pack \<in> set rest. isl (ReadURL (cdn_url baseURL pack))" by auto
    from Cons.IH [OF this] Inr show ?thesis
      by (cases "ModifyResourcePackForCDN ReadURL rest baseURL") (simp_all add: MustReadURL_def)
  qed
qed

text \<open>
  Claim C8, as stated, fails: when the URL cannot be fetched the rewrite panics and yields
  no list.
\<close>

theorem cdn_rewrite_panics_counterexample:
  "ModifyResourcePackForCDN ex_refused [ok_pack] ''http://0.0.0.0:8080''
     = Inl (Panic ''connection refused'')"
  by (simp add: MustReadURL_def ex_refused_def)

text \<open>
  Claim C8, amended. The rewrite fetches, for each pack in order, the URL
  \<open>baseURL/identifier\<close>. If every fetch succeeds, the result is a list of the same length
  whose i-th pack is the one read from the URL of the i-th input pack, so it carries the
  identifiers of the input, in the same order, whenever each URL serves a pack with the
  identifier it was asked for. If some fetch fails, the rewrite panics.
\<close>

theorem cdn_rewrite_fetches_each_pack:
  "((\<forall>pack \<in> set ps. \<not> isl (ReadURL (cdn_url baseURL pack))) \<longrightarrow>
      (\<exists>out. ModifyResourcePackForCDN ReadURL ps baseURL = Inr out
         \<and> length out = length ps
         \<and> (\<forall>i < length ps. ReadURL (baseURL @ ''/'' @ UUID (ps ! i)) = Inr (out ! i))
         \<and> ((\<forall>pack \<in> set ps. UUID (projr (ReadURL (cdn_url baseURL pack))) = UUID pack) \<longrightarrow>
              map UUID out = map UUID ps)))
   \<and> ((\<exists>pack \<in> set ps. isl (ReadURL (cdn_url baseURL pack))) \<longrightarrow>
        (\<exists>p. ModifyResourcePackForCDN ReadURL ps baseURL = Inl p))"
proof (intro conjI impI)
  assume a: "\<forall>pack \<in> set ps. \<not> isl (ReadURL (cdn_url baseURL pack))"
  let ?out = "map (\<lambda>pack. projr (ReadURL (cdn_url baseURL pack))) ps"
  have 1: "ModifyResourcePackForCDN ReadURL ps baseURL = Inr ?out"
    using a by (rule cdn_ok)
  have 2: "\<forall>i < length ps. ReadURL (baseURL @ ''/'' @ UUID (ps ! i)) = Inr (?out ! i)"
  proof (intro allI impI)
    fix i assume "i < length ps"
    with a have "\<not> isl (ReadURL (cdn_url baseURL (ps ! i)))" by simp
    with \<open>i < length ps\<close> show "ReadURL (baseURL @ ''/'' @ UUID (ps ! i)) = Inr (?out ! i)"
      by (cases "ReadURL (cdn_url baseURL (ps ! i))") (simp_all add: cdn_url_def)
  qed
  have 3: "(\<forall>pack \<in> set ps. UUID (projr (ReadURL (cdn_url baseURL pack))) = UUID pack) \<longrightarrow>
              map UUID ?out = map UUID ps"
    by (simp add: comp_def)
  from 1 2 3 show "\<exists>out. ModifyResourcePackForCDN ReadURL ps baseURL = Inr out
         \<and> length out = length ps
         \<and> (\<forall>i < length ps. ReadURL (baseURL @ ''/'' @ UUID (ps ! i)) = Inr (out ! i))
         \<and> ((\<forall>pack \<in> set ps. UUID (projr (ReadURL (cdn_url baseURL pack))) = UUID pack) \<longrightarrow>
              map UUID out = map UUID ps)"
    by simp
next
  assume "\<exists>pack \<in> set ps. isl (ReadURL (cdn_url baseURL pack))"
  from cdn_panic [OF this] show "\<exists>p. ModifyResourcePackForCDN ReadURL ps baseURL = Inl p"
    by (cases "ModifyResourcePackForCDN ReadURL ps baseURL") simp_all
qed

text \<open>A CDN that serves \<open>p1\<close>, and a base URL nothing answers at.\<close>

theorem cdn_rewrite_fetches_each_pack_witness:
  "ModifyResourcePackForCDN ex_fetch [ok_pack] ''http://cdn''
     = Inr [ok_pack\<lparr>DownloadURL := ''http://cdn/p1''\<rparr>]
   \<and> isl (ModifyResourcePackForCDN ex_fetch [ok_pack] ''http://0.0.0.0:8080'')"
proof -
  have u: "cdn_url ''http://cdn'' ok_pack = ''http://cdn/p1''"
    "cdn_url ''http://0.0.0.0:8080'' ok_pack = ''http://0.0.0.0:8080/p1''"
    by (simp_all add: cdn_url_def ok_pack_def)
  have f: "ex_fetch ''http://cdn/p1'' = Inr (ok_pack\<lparr>DownloadURL := ''http://cdn/p1''\<rparr>)"
    "isl (ex_fetch ''http://0.0.0.0:8080/p1'')" "UUID ok_pack = ''p1''"
    by (simp_all add: ex_fetch_def ok_pack_def)
  from cdn_rewrite_fetches_each_pack [of "[ok_pack]" ex_fetch "''http://cdn''"] u f
  obtain out where o: "ModifyResourcePackForCDN ex_fetch [ok_pack] ''http://cdn'' = Inr out"
    "length out = 1" "ex_fetch ''http://cdn/p1'' = Inr (out ! 0)"
    by auto
  then have "out = [ok_pack\<lparr>DownloadURL := ''http://cdn/p1''\<rparr>]"
    using f(1) by (cases out) auto
  moreover
  from cdn_rewrite_fetches_each_pack [of "[ok_pack]" ex_fetch "''http://0.0.0.0:8080''"] u f
  have "isl (ModifyResourcePackForCDN ex_fetch [ok_pack] ''http://0.0.0.0:8080'')"
    by auto
  ultimately show ?thesis using o by simp
qed

section \<open>The readiness gate\<close>

lemma new_server_open:
  "fst (NewResourcePackServer getwd ps port) = Inr s \<Longrightarrow> ready s = Open"
  by (auto simp: NewResourcePackServer_def split: sum.splits prod.splits)

lemma run_Cons: "run (x # ops) rt = run ops (step rt x)"
  by (simp add: run_def)

lemma run_waits_open:
  "ready (server rt) = Open \<Longrightarrow> run (map OpWait ws) rt = rt\<lparr>blocked := blocked rt @ ws\<rparr>"
proof (induction ws arbitrary: rt)
  case Nil
  then show ?case by (simp add: run_def)
next
  case (Cons g gs)
  have "ready (server (WaitForReady g rt)) = Open"
    using Cons.prems by (simp add: WaitForReady_def)
  from Cons.IH [OF this] Cons.prems show ?case
    by (simp add: run_Cons WaitForReady_def)
qed

lemma run_waits_closed:
  "ready (server rt) = Closed \<Longrightarrow> run (map OpWait gs) rt = rt\<lparr>returned := returned rt @ gs\<rparr>"
proof (induction gs arbitrary: rt)
  case Nil
  then show ?case by (simp add: run_def)
next
  case (Cons g gs)
  have "ready (server (WaitForReady g rt)) = Closed"
    using Cons.prems by (simp add: WaitForReady_def)
  from Cons.IH [OF this] Cons.prems show ?case
    by (simp add: run_Cons WaitForReady_def)
qed

lemma Start_bound:
  assumes "ready (server rt) = Open"
  shows "Start (Inr l) rt
           = (Serving l,
              rt\<lparr>server := (server rt)\<lparr>ready := Closed\<rparr>,
                 returned := returned rt @ blocked rt,
                 blocked := [],
                 trace := trace rt @
                   [Log LInfo ''Starting resource pack HTTP server'' [(''address'', Addr (server rt))],
                    Listen (Addr (server rt)), CloseReady, Serve l]\<rparr>)"
  using assms by (simp add: Start_def close_ready_def Let_def)

lemma Start_failed:
  "Start (Inl err) rt
     = (BindFailed err,
        rt\<lparr>trace := trace rt @
             [Log LInfo ''Starting resource pack HTTP server'' [(''address'', Addr (server rt))],
              Listen (Addr (server rt))]\<rparr>)"
  by (simp add: Start_def Let_def)

text \<open>
  Claim C5. On a server made by \<open>NewResourcePackServer\<close>, let the goroutines \<open>ws\<close> call
  \<open>WaitForReady\<close>: all of them block. If \<open>Start\<close> then binds its socket, it closes the
  channel exactly once, after \<open>net.Listen\<close> and before \<open>Serve\<close>; every blocked goroutine
  has returned and none is blocked; and every later call of \<open>WaitForReady\<close> returns at
  once, without a further signal.
\<close>

theorem start_signals_ready_once:
  assumes "fst (NewResourcePackServer getwd ps port) = Inr s"
  shows "(let rt0 = run (map OpWait ws) (fresh s);
              r = Start (Inr l) rt0;
              rt1 = snd r;
              rt2 = run (map OpWait gs) rt1
          in blocked rt0 = ws \<and> returned rt0 = []
           \<and> fst r = Serving l
           \<and> trace rt1
               = [Log LInfo ''Starting resource pack HTTP server'' [(''address'', Addr s)],
                  Listen (Addr s), CloseReady, Serve l]
           \<and> count_list (trace rt1) CloseReady = 1
           \<and> blocked rt1 = [] \<and> returned rt1 = ws
           \<and> blocked rt2 = [] \<and> returned rt2 = ws @ gs \<and> trace rt2 = trace rt1)"
proof -
  from assms have o: "ready s = Open" by (rule new_server_open)
  then have 0: "run (map OpWait ws) (fresh s) = (fresh s)\<lparr>blocked := ws\<rparr>"
    using run_waits_open [of "fresh s" ws] by (simp add: fresh_def)
  have c: "ready (server (snd (Start (Inr l) ((fresh s)\<lparr>blocked := ws\<rparr>)))) = Closed"
    using o by (simp add: Start_bound fresh_def)
  show ?thesis
    unfolding Let_def 0 run_waits_closed [OF c]
    using o by (simp add: Start_bound fresh_def)
qed

lemma run_no_bind:
  assumes "ready (server rt) = Open" and "\<forall>op \<in> set ops. \<not> binds op"
    and "CloseReady \<notin> set (trace rt)"
  shows "ready (server (run ops rt)) = Open \<and> CloseReady \<notin> set (trace (run ops rt))
       \<and> returned (run ops rt) = returned rt \<and> blocked (run ops rt) = blocked rt @ waiters ops"
  using assms
proof (induction ops arbitrary: rt)
  case Nil
  then show ?case by (simp add: run_def)
next
  case (Cons x ops)
  show ?case
  proof (cases x)
    case (OpWait g)
    let ?rt = "WaitForReady g rt"
    from Cons.prems have "ready (server ?rt) = Open" "CloseReady \<notin> set (trace ?rt)"
      "\<forall>op \<in> set ops. \<not> binds op"
      by (simp_all add: WaitForReady_def)
    from Cons.IH [OF this(1) this(3) this(2)] Cons.prems OpWait show ?thesis
      by (simp add: run_Cons WaitForReady_def)
  next
    case (OpStart lr)
    with Cons.prems obtain err where lr: "lr = Inl err"
      by (cases lr) auto
    let ?rt = "snd (Start (Inl err) rt)"
    from Cons.prems have "ready (server ?rt) = Open" "CloseReady \<notin> set (trace ?rt)"
      "\<forall>op \<in> set ops. \<not> binds op"
      by (simp_all add: Start_failed)
    from Cons.IH [OF this(1) this(3) this(2)] OpStart lr show ?thesis
      by (simp add: run_Cons Start_failed)
  qed
qed

text \<open>
  Claim C10. On a server made by \<open>NewResourcePackServer\<close>, if \<open>Start\<close> fails to bind
  it returns the error and the channel stays open: the goroutines that called
  \<open>WaitForReady\<close> before it are still blocked. Through any later calls among which no
  \<open>Start\<close> binds, the channel is never closed, no call of \<open>WaitForReady\<close> returns, and
  the callers before and after the failed \<open>Start\<close> are all blocked.
\<close>

theorem failed_start_never_signals:
  assumes "fst (NewResourcePackServer getwd ps port) = Inr s"
    and "\<forall>op \<in> set later. \<not> binds op"
  shows "(let rt0 = run (map OpWait ws) (fresh s);
              r = Start (Inl err) rt0;
              rt1 = snd r;
              rt2 = run later rt1
          in fst r = BindFailed err
           \<and> ready (server rt1) = Open \<and> CloseReady \<notin> set (trace rt1)
           \<and> blocked rt1 = ws \<and> returned rt1 = []
           \<and> ready (server rt2) = Open \<and> CloseReady \<notin> set (trace rt2)
           \<and> blocked rt2 = ws @ waiters later \<and> returned rt2 = [])"
proof -
  from assms(1) have o: "ready s = Open" by (rule new_server_open)
  then have 0: "run (map OpWait ws) (fresh s) = (fresh s)\<lparr>blocked := ws\<rparr>"
    using run_waits_open [of "fresh s" ws] by (simp add: fresh_def)
  let ?rt1 = "snd (Start (Inl err) ((fresh s)\<lparr>blocked := ws\<rparr>))"
  have 1: "ready (server ?rt1) = Open" "CloseReady \<notin> set (trace ?rt1)"
    "blocked ?rt1 = ws" "returned ?rt1 = []"
    using o by (simp_all add: Start_failed fresh_def)
  from run_no_bind [OF 1(1) assms(2) 1(2)] 1
  show ?thesis
    unfolding Let_def 0 by (simp add: Start_failed)
qed

text \<open>The server made for one pack on port 8080.\<close>

lemma new_ex_srv_cached:
  "fst (NewResourcePackServer (Inr ''/srv'') [ok_pack] 8080) = Inr ex_srv_cached"
  by (simp add: NewResourcePackServer_def read_content_def ok_pack_def ex_srv_cached_def
      path_Join_def decimal.simps digit_def Let_def)

theorem start_signals_ready_once_witness:
  "fst (NewResourcePackServer (Inr ''/srv'') [ok_pack] 8080) = Inr ex_srv_cached
   \<and> blocked (run [OpWait 1, OpWait 2] (fresh ex_srv_cached)) = [1, 2]
   \<and> returned (snd (Start (Inr 7) (run [OpWait 1, OpWait 2] (fresh ex_srv_cached)))) = [1, 2]
   \<and> count_list (trace (snd (Start (Inr 7) (run [OpWait 1, OpWait 2] (fresh ex_srv_cached))))) CloseReady = 1
   \<and> blocked (run [OpWait 3] (snd (Start (Inr 7) (run [OpWait 1, OpWait 2] (fresh ex_srv_cached))))) = []
   \<and> returned (run [OpWait 3] (snd (Start (Inr 7) (run [OpWait 1, OpWait 2] (fresh ex_srv_cached))))) = [1, 2, 3]"
  using start_signals_ready_once [OF new_ex_srv_cached, of "[1, 2]" 7 "[3]"] new_ex_srv_cached
  by (simp add: Let_def)

theorem failed_start_never_signals_witness:
  "fst (NewResourcePackServer (Inr ''/srv'') [ok_pack] 8080) = Inr ex_srv_cached
   \<and> fst (Start (Inl (Error ''address already in use'')) (run [OpWait 1] (fresh ex_srv_cached)))
       = BindFailed (Error ''address already in use'')
   \<and> blocked (run [OpWait 2, OpStart (Inl (Error ''address already in use'')), OpWait 3]
        (snd (Start (Inl (Error ''address already in use'')) (run [OpWait 1] (fresh ex_srv_cached)))))
       = [1, 2, 3]
   \<and> returned (run [OpWait 2, OpStart (Inl (Error ''address already in use'')), OpWait 3]
        (snd (Start (Inl (Error ''address already in use'')) (run [OpWait 1] (fresh ex_srv_cached)))))
       = []"
proof -
  let ?later = "[OpWait 2, OpStart (Inl (Error ''address already in use'')), OpWait 3]"
  have n: "\<forall>op \<in> set ?later. \<not> binds op" by simp
  from failed_start_never_signals [OF new_ex_srv_cached n, of "[1]" "Error ''address already in use''"]
       new_ex_srv_cached
  show ?thesis by (simp add: Let_def)
qed

end
